theory Spec2Isabelle
  imports Main "HOL-Library.Word"
begin

unbundle bit_operations_syntax

section \<open>Machine integers of the source\<close>

type_synonym uint64 = "64 word"

text \<open>
  Go's shifts on 64-bit operands with an unsigned shift count: a count of 64 or more
  shifts every bit out, so the result of \<open><<\<close> and of the logical \<open>>>\<close> is 0.
\<close>

definition shl :: "uint64 \<Rightarrow> uint64 \<Rightarrow> uint64" where
  "shl x n = (if n < 64 then push_bit (unat n) x else 0)"

definition shr :: "uint64 \<Rightarrow> uint64 \<Rightarrow> uint64" where
  "shr x n = (if n < 64 then drop_bit (unat n) x else 0)"

text \<open>
  The mask expression \<open>uint64(^(int64(-1) << bits))\<close>: \<open>int64(-1)\<close> is the word of all
  ones, the left shift of a signed value moves the same bits as the unsigned one, \<open>^\<close>
  is bitwise complement, and the conversion to \<open>uint64\<close> keeps the bits.
\<close>

definition lowMask :: "uint64 \<Rightarrow> uint64" where
  "lowMask bits = NOT (shl (- 1) bits)"

section \<open>Constants, configuration and generator\<close>

definition DefaultMachineBits :: uint64 where
  "DefaultMachineBits = 10"

definition DefaultSequenceBits :: uint64 where
  "DefaultSequenceBits = 12"

definition MaxBits :: uint64 where
  "MaxBits = 63"

record Config =
  MachineID :: uint64
  EpochStartUnixSeconds :: uint64
  MachineBits :: uint64
  SequenceBits :: uint64
  TimeBits :: uint64

text \<open>
  The fields of \<open>Generator\<close>, without the mutex: every operation below is the body of
  one critical section, run to its end.
\<close>

record Generator =
  time :: uint64
  seq :: uint64
  machineIDShifted :: uint64
  epochStartNano :: uint64
  machineBits :: uint64
  sequenceBits :: uint64
  timeBits :: uint64
  machineShift :: uint64
  timeShift :: uint64
  sequenceMask :: uint64
  timeMask :: uint64
  nanoSecondsShift :: uint64

text \<open>
  The two errors of \<open>New\<close>. \<open>InvalidMachineID m\<close> stands for the error formatted from
  \<open>"invalid machine id; must be 0 \<le> id < %d"\<close> with the argument \<open>m\<close>.
\<close>

datatype error = InvalidBitsSum | InvalidMachineID uint64

text \<open>
  The condition on a machine ID that the message of an error states: the message of
  \<open>InvalidMachineID m\<close> reads \<open>must be 0 \<le> id < m\<close>; the message of the sum error
  states none.
\<close>

definition statedRange :: "error \<Rightarrow> uint64 \<Rightarrow> bool" where
  "statedRange e ident =
     (case e of InvalidMachineID m \<Rightarrow> 0 \<le> ident \<and> ident < m | InvalidBitsSum \<Rightarrow> False)"

section \<open>Construction\<close>

definition defaultedMachineBits :: "Config \<Rightarrow> uint64" where
  "defaultedMachineBits config =
     (if MachineBits config = 0 then DefaultMachineBits else MachineBits config)"

definition defaultedSequenceBits :: "Config \<Rightarrow> uint64" where
  "defaultedSequenceBits config =
     (if SequenceBits config = 0 then DefaultSequenceBits else SequenceBits config)"

definition defaultedTimeBits :: "Config \<Rightarrow> uint64" where
  "defaultedTimeBits config =
     (if TimeBits config = 0
      then MaxBits - defaultedMachineBits config - defaultedSequenceBits config
      else TimeBits config)"

definition New :: "Config \<Rightarrow> error + Generator" where
  "New config =
     (let mb = defaultedMachineBits config;
          sb = defaultedSequenceBits config;
          tb = defaultedTimeBits config
      in if sb + mb + tb \<noteq> MaxBits then Inl InvalidBitsSum
         else
           let machineMax = lowMask mb
           in if MachineID config > machineMax then Inl (InvalidMachineID machineMax)
              else Inr \<lparr> time = 0, seq = 0,
                         machineIDShifted = shl (MachineID config) sb,
                         epochStartNano = EpochStartUnixSeconds config * 1000000000,
                         machineBits = mb, sequenceBits = sb, timeBits = tb,
                         machineShift = sb, timeShift = sb + mb,
                         sequenceMask = lowMask sb, timeMask = lowMask tb,
                         nanoSecondsShift = 64 - tb \<rparr>)"

section \<open>Accessor, clock and generation\<close>

text \<open>
  The method \<open>MachineID()\<close>; the name \<open>MachineID\<close> is taken by the field of \<open>Config\<close>.
\<close>

definition MachineID_of :: "Generator \<Rightarrow> uint64" where
  "MachineID_of g = shr (machineIDShifted g) (machineShift g)"

text \<open>
  \<open>generateTime\<close> reads the clock; the reading \<open>uint64(time.Now().UnixNano())\<close> is the
  parameter \<open>now\<close>.
\<close>

definition generateTime :: "Generator \<Rightarrow> uint64 \<Rightarrow> uint64" where
  "generateTime g now = shr (now - epochStartNano g) (nanoSecondsShift g) AND timeMask g"

text \<open>
  \<open>Next\<close> in two steps: \<open>advance\<close> is its \<open>switch\<close> statement, which updates \<open>time\<close> and
  \<open>seq\<close>, and \<open>compose\<close> is the expression it returns, read from the updated state.
\<close>

definition compose :: "Generator \<Rightarrow> uint64" where
  "compose g = shl (time g) (timeShift g) OR machineIDShifted g OR seq g"

definition advance :: "Generator \<Rightarrow> uint64 \<Rightarrow> Generator" where
  "advance g now =
     (let newTime = generateTime g now
      in if newTime > time g then g\<lparr>time := newTime, seq := 0\<rparr>
         else if seq g = sequenceMask g then g\<lparr>time := time g + 1, seq := 0\<rparr>
         else g\<lparr>seq := seq g + 1\<rparr>)"

definition Next :: "Generator \<Rightarrow> uint64 \<Rightarrow> uint64 \<times> Generator" where
  "Next g now = (let g' = advance g now in (compose g', g'))"

text \<open>
  Successive calls of \<open>Next\<close> on one generator, one clock reading per call: the list of
  the returned identifiers, each with the state the call left behind.
\<close>

fun NextN :: "Generator \<Rightarrow> uint64 list \<Rightarrow> (uint64 \<times> Generator) list" where
  "NextN g [] = []"
| "NextN g (now # nows) = (let r = Next g now in r # NextN (snd r) nows)"

section \<open>Predicates used in the statements\<close>

text \<open>
  \<open>exactBits\<close>: the three widths, after the defaults, add up to 63 as natural numbers
  (the check in \<open>New\<close> adds them as \<open>uint64\<close>, modulo \<open>2 ^ 64\<close>).
\<close>

definition exactBits :: "Config \<Rightarrow> bool" where
  "exactBits config \<longleftrightarrow>
     unat (defaultedMachineBits config) + unat (defaultedSequenceBits config)
       + unat (defaultedTimeBits config) = 63"

text \<open>
  \<open>layoutOK\<close>: the layout fields of a generator describe three adjacent fields of 63 bits
  in all, and the shifted machine ID lies inside the machine field.
\<close>

definition layoutOK :: "Generator \<Rightarrow> bool" where
  "layoutOK g \<longleftrightarrow>
     unat (machineBits g) + unat (sequenceBits g) + unat (timeBits g) = 63 \<and>
     sequenceBits g \<noteq> 0 \<and>
     machineShift g = sequenceBits g \<and>
     timeShift g = sequenceBits g + machineBits g \<and>
     sequenceMask g = mask (unat (sequenceBits g)) \<and>
     timeMask g = mask (unat (timeBits g)) \<and>
     take_bit (unat (sequenceBits g)) (machineIDShifted g) = 0 \<and>
     unat (machineIDShifted g) < 2 ^ (unat (sequenceBits g) + unat (machineBits g))"

section \<open>Concrete configurations\<close>

text \<open>
  \<open>tightConfig\<close> has one time bit and one sequence bit; \<open>tightGenerator\<close> is the generator
  \<open>New\<close> returns for it. \<open>wrappedConfig\<close> leaves \<open>TimeBits\<close> at 0 with 80 machine and
  sequence bits; \<open>wrappedGenerator\<close> is what \<open>New\<close> returns for it. \<open>defaultConfig\<close> sets
  only the machine ID, as the tests of the repository do.
\<close>

definition tightConfig :: Config where
  "tightConfig = \<lparr> MachineID = 0, EpochStartUnixSeconds = 0,
                    MachineBits = 61, SequenceBits = 1, TimeBits = 1 \<rparr>"

definition tightGenerator :: Generator where
  "tightGenerator = \<lparr> time = 0, seq = 0, machineIDShifted = 0, epochStartNano = 0,
        machineBits = 61, sequenceBits = 1, timeBits = 1, machineShift = 1,
        timeShift = 62, sequenceMask = 1, timeMask = 1, nanoSecondsShift = 63 \<rparr>"

definition wrappedConfig :: Config where
  "wrappedConfig = \<lparr> MachineID = 16777216, EpochStartUnixSeconds = 0,
                      MachineBits = 40, SequenceBits = 40, TimeBits = 0 \<rparr>"

definition wrappedGenerator :: Generator where
  "wrappedGenerator = \<lparr> time = 0, seq = 0, machineIDShifted = 0, epochStartNano = 0,
        machineBits = 40, sequenceBits = 40, timeBits = 18446744073709551599,
        machineShift = 40, timeShift = 80, sequenceMask = 1099511627775,
        timeMask = 18446744073709551615, nanoSecondsShift = 81 \<rparr>"

definition defaultConfig :: "uint64 \<Rightarrow> Config" where
  "defaultConfig mid = \<lparr> MachineID = mid, EpochStartUnixSeconds = 0,
                          MachineBits = 0, SequenceBits = 0, TimeBits = 0 \<rparr>"

definition defaultGenerator :: "uint64 \<Rightarrow> Generator" where
  "defaultGenerator mid = \<lparr> time = 0, seq = 0, machineIDShifted = push_bit 12 mid,
        epochStartNano = 0, machineBits = 10, sequenceBits = 12, timeBits = 41,
        machineShift = 12, timeShift = 22, sequenceMask = 4095,
        timeMask = 2199023255551, nanoSecondsShift = 23 \<rparr>"

section \<open>Words and natural numbers\<close>

lemma unat_or_disjoint:
  fixes a b :: uint64
  assumes "a AND b = 0"
  shows "unat (a OR b) = unat a + unat b"
proof -
  have "unat a AND unat b = 0"
    using assms by (metis unsigned_and_eq unsigned_0)
  then have "unat a + unat b = unat a OR unat b"
    by (rule disjunctive_add_eq_or)
  then show ?thesis by (simp add: unsigned_or_eq)
qed

lemma unat_mask64: "unat (mask n :: uint64) = mask (min 64 n)"
  by (simp add: unat_eq_nat_uint uint_mask_eq nat_mask_eq)

lemma le_mask_unat:
  fixes w :: uint64
  assumes "w \<le> mask n"
  shows "unat w < 2 ^ n"
proof -
  have "unat w \<le> mask (min 64 n)"
    using assms by (simp add: word_le_nat_alt unat_mask64)
  also have "(mask (min 64 n) :: nat) < 2 ^ min 64 n" by simp
  also have "(2::nat) ^ min 64 n \<le> 2 ^ n" by (rule power_increasing) simp_all
  finally show ?thesis .
qed

lemma unat_push_bit_small:
  fixes w :: uint64
  assumes "unat w * 2 ^ n < 2 ^ 64"
  shows "unat (push_bit n w) = unat w * 2 ^ n"
proof -
  have "unat (push_bit n w) = take_bit 64 (push_bit n (unat w))"
    by (simp add: unsigned_push_bit_eq)
  also have "\<dots> = push_bit n (unat w)"
    using assms by (simp add: take_bit_nat_eq_self push_bit_eq_mult)
  finally show ?thesis by (simp add: push_bit_eq_mult)
qed

lemma unat_less_bit:
  fixes w :: uint64
  assumes "unat w < 2 ^ n" and "bit w k"
  shows "k < n"
proof (rule ccontr)
  assume "\<not> k < n"
  then have "n \<le> k" by simp
  have "take_bit n (unat w) = unat w" using assms(1) by (simp add: take_bit_nat_eq_self)
  then have "bit (unat w) k = bit (take_bit n (unat w)) k" by simp
  with \<open>n \<le> k\<close> have "\<not> bit (unat w) k" by (simp add: bit_take_bit_iff)
  with assms(2) show False by (simp add: bit_unsigned_iff)
qed

section \<open>The masks and the state fields\<close>

lemma lowMask_eq_mask: "lowMask n = mask (unat n)"
proof (cases "n < 64")
  case True
  then show ?thesis
    by (simp add: lowMask_def shl_def push_bit_minus_one minus_exp_eq_not_mask)
next
  case False
  then have "64 \<le> unat n" by (simp add: word_less_nat_alt)
  then have "(mask (unat n) :: uint64) = - 1"
    by (auto simp add: bit_eq_iff bit_simps)
  with False show ?thesis by (simp add: lowMask_def shl_def)
qed

lemma lowMask_eq_shl: "lowMask n = shl 1 n - 1"
proof (cases "n < 64")
  case True
  then show ?thesis
    by (simp add: lowMask_def shl_def push_bit_minus_one minus_exp_eq_not_mask mask_eq_decr_exp push_bit_eq_mult)
next
  case False
  then show ?thesis by (simp add: lowMask_def shl_def)
qed

lemma advance_fields:
  "machineIDShifted (advance g now) = machineIDShifted g"
  "epochStartNano (advance g now) = epochStartNano g"
  "machineBits (advance g now) = machineBits g"
  "sequenceBits (advance g now) = sequenceBits g"
  "timeBits (advance g now) = timeBits g"
  "machineShift (advance g now) = machineShift g"
  "timeShift (advance g now) = timeShift g"
  "sequenceMask (advance g now) = sequenceMask g"
  "timeMask (advance g now) = timeMask g"
  "nanoSecondsShift (advance g now) = nanoSecondsShift g"
  by (simp_all add: advance_def Let_def)

lemma advance_seq_le:
  assumes "seq g \<le> sequenceMask g"
  shows "seq (advance g now) \<le> sequenceMask g"
proof -
  have "seq g + 1 \<le> sequenceMask g" if "seq g \<noteq> sequenceMask g"
    using assms that by (simp add: inc_le)
  then show ?thesis by (simp add: advance_def Let_def)
qed

lemma NextN_invariant:
  assumes "I g0" and "\<And>g now. I g \<Longrightarrow> I (advance g now)"
  shows "\<forall>r \<in> set (NextN g0 nows). I (snd r) \<and> fst r = compose (snd r)"
  using assms(1)
proof (induction nows arbitrary: g0)
  case Nil
  then show ?case by simp
next
  case (Cons now nows)
  have "I (advance g0 now)" using Cons.prems assms(2) by blast
  with Cons.IH [of "advance g0 now"] show ?case
    by (simp add: Next_def Let_def)
qed

section \<open>The layout of an identifier\<close>

lemma layoutOK_timeShift:
  assumes "layoutOK g"
  shows "unat (timeShift g) = unat (sequenceBits g) + unat (machineBits g)"
    and "timeShift g < 64"
proof -
  have sum: "unat (sequenceBits g) + unat (machineBits g) \<le> 63"
    using assms by (simp add: layoutOK_def)
  then have "unat (sequenceBits g) + unat (machineBits g) < 2 ^ LENGTH(64)" by simp
  then have "unat (sequenceBits g + machineBits g) = unat (sequenceBits g) + unat (machineBits g)"
    by (simp only: unat_add_lem)
  then show u: "unat (timeShift g) = unat (sequenceBits g) + unat (machineBits g)"
    using assms by (simp add: layoutOK_def)
  from u sum show "timeShift g < 64" by (simp add: word_less_nat_alt)
qed

lemma compose_push_bit:
  assumes "layoutOK g"
  shows "compose g =
    push_bit (unat (sequenceBits g) + unat (machineBits g)) (time g) OR machineIDShifted g OR seq g"
  using layoutOK_timeShift [OF assms] by (simp add: compose_def shl_def)

lemma layoutOK_bit_machine:
  assumes "layoutOK g" and "bit (machineIDShifted g) k"
  shows "unat (sequenceBits g) \<le> k \<and> k < unat (sequenceBits g) + unat (machineBits g)"
proof -
  have "\<not> bit (take_bit (unat (sequenceBits g)) (machineIDShifted g)) k"
    using assms(1) by (simp add: layoutOK_def)
  with assms(2) have "unat (sequenceBits g) \<le> k" by (simp add: bit_take_bit_iff)
  moreover have "k < unat (sequenceBits g) + unat (machineBits g)"
    using assms by (auto simp add: layoutOK_def intro: unat_less_bit)
  ultimately show ?thesis by simp
qed

lemma layoutOK_bit_seq:
  assumes "layoutOK g" and "seq g \<le> sequenceMask g" and "bit (seq g) k"
  shows "k < unat (sequenceBits g)"
proof -
  have "unat (seq g) < 2 ^ unat (sequenceBits g)"
    using assms(1,2) by (simp add: layoutOK_def le_mask_unat)
  then show ?thesis using assms(3) by (rule unat_less_bit)
qed

lemma unat_compose:
  assumes "layoutOK g" and "seq g \<le> sequenceMask g"
    and "unat (time g) < 2 ^ (unat (timeBits g) + 1)"
  shows "unat (compose g) =
    unat (time g) * 2 ^ (unat (sequenceBits g) + unat (machineBits g))
      + unat (machineIDShifted g) + unat (seq g)"
proof -
  let ?n = "unat (sequenceBits g) + unat (machineBits g)"
  have d1: "machineIDShifted g AND seq g = 0"
    using layoutOK_bit_machine [OF assms(1)] layoutOK_bit_seq [OF assms(1,2)]
    by (fastforce simp add: bit_eq_iff bit_and_iff)
  have d2: "push_bit ?n (time g) AND (machineIDShifted g OR seq g) = 0"
    using layoutOK_bit_machine [OF assms(1)] layoutOK_bit_seq [OF assms(1,2)]
    by (fastforce simp add: bit_eq_iff bit_and_iff bit_or_iff bit_push_bit_iff)
  have "?n + (unat (timeBits g) + 1) = 64"
    using assms(1) by (simp add: layoutOK_def)
  then have "(2::nat) ^ 64 = 2 ^ (unat (timeBits g) + 1) * 2 ^ ?n"
    by (metis power_add add.commute)
  moreover have "unat (time g) * 2 ^ ?n < 2 ^ (unat (timeBits g) + 1) * 2 ^ ?n"
    using assms(3) by (simp only: mult_less_cancel2 zero_less_power zero_less_numeral simp_thms)
  ultimately have "unat (time g) * 2 ^ ?n < 2 ^ 64"
    by (simp only:)
  then have "unat (push_bit ?n (time g)) = unat (time g) * 2 ^ ?n"
    by (rule unat_push_bit_small)
  then show ?thesis
    by (simp add: compose_push_bit [OF assms(1)] unat_or_disjoint [OF d2] unat_or_disjoint [OF d1])
qed

section \<open>Construction establishes the layout, generation keeps it\<close>

lemma New_Inr_fields:
  assumes "New config = Inr g"
  shows "g = \<lparr> time = 0, seq = 0,
               machineIDShifted = shl (MachineID config) (defaultedSequenceBits config),
               epochStartNano = EpochStartUnixSeconds config * 1000000000,
               machineBits = defaultedMachineBits config,
               sequenceBits = defaultedSequenceBits config,
               timeBits = defaultedTimeBits config,
               machineShift = defaultedSequenceBits config,
               timeShift = defaultedSequenceBits config + defaultedMachineBits config,
               sequenceMask = lowMask (defaultedSequenceBits config),
               timeMask = lowMask (defaultedTimeBits config),
               nanoSecondsShift = 64 - defaultedTimeBits config \<rparr>"
    and "MachineID config \<le> lowMask (defaultedMachineBits config)"
    and "defaultedSequenceBits config + defaultedMachineBits config + defaultedTimeBits config = 63"
  using assms by (simp_all add: New_def Let_def MaxBits_def split: if_splits)

lemma defaultedSequenceBits_nonzero: "defaultedSequenceBits config \<noteq> 0"
  by (simp add: defaultedSequenceBits_def DefaultSequenceBits_def)

lemma defaultedMachineBits_nonzero: "defaultedMachineBits config \<noteq> 0"
  by (simp add: defaultedMachineBits_def DefaultMachineBits_def)

lemma New_layoutOK:
  assumes "New config = Inr g" and "exactBits config"
  shows "layoutOK g"
proof -
  let ?S = "unat (defaultedSequenceBits config)"
  let ?M = "unat (defaultedMachineBits config)"
  note g = New_Inr_fields(1) [OF assms(1)]
  have S: "?S + ?M \<le> 63" using assms(2) by (simp add: exactBits_def)
  then have lt: "defaultedSequenceBits config < 64" by (simp add: word_less_nat_alt)
  have mid: "unat (MachineID config) < 2 ^ ?M"
    using New_Inr_fields(2) [OF assms(1)] by (simp add: lowMask_eq_mask le_mask_unat)
  have "unat (MachineID config) * 2 ^ ?S < 2 ^ ?M * 2 ^ ?S"
    using mid by (simp only: mult_less_cancel2 zero_less_power zero_less_numeral simp_thms)
  then have b: "unat (MachineID config) * 2 ^ ?S < 2 ^ (?S + ?M)"
    by (simp add: power_add mult.commute)
  also have "(2::nat) ^ (?S + ?M) \<le> 2 ^ 63" using S by (rule power_increasing) simp_all
  finally have "unat (MachineID config) * 2 ^ ?S < 2 ^ 64" by simp
  then have "unat (push_bit ?S (MachineID config)) = unat (MachineID config) * 2 ^ ?S"
    by (rule unat_push_bit_small)
  with b have "unat (push_bit ?S (MachineID config)) < 2 ^ (?S + ?M)" by simp
  moreover have "take_bit ?S (push_bit ?S (MachineID config)) = 0"
    by (simp add: bit_eq_iff bit_take_bit_iff bit_push_bit_iff)
  ultimately show ?thesis
    using assms(2) lt defaultedSequenceBits_nonzero [of config]
    by (subst g) (simp add: layoutOK_def exactBits_def lowMask_eq_mask shl_def)
qed

lemma unat_inc_bounded:
  fixes w :: uint64
  assumes "unat w < 2 ^ 64 - 1"
  shows "unat (w + 1) = unat w + 1"
proof -
  have "unat w + unat (1::uint64) < 2 ^ LENGTH(64)" using assms by simp
  then have "unat (w + 1) = unat w + unat (1::uint64)" by (simp only: unat_add_lem)
  then show ?thesis by simp
qed

lemma advance_layoutOK:
  "layoutOK g \<Longrightarrow> layoutOK (advance g now)"
  by (simp add: layoutOK_def advance_fields)

lemma advance_increasing:
  assumes "layoutOK g" and "seq g \<le> sequenceMask g"
    and "unat (time g) < 2 ^ (unat (timeBits g) + 1)"
    and "unat (time (advance g now)) < 2 ^ (unat (timeBits g) + 1)"
  shows "compose g < compose (advance g now)"
proof -
  let ?g' = "advance g now"
  let ?K = "(2::nat) ^ (unat (sequenceBits g) + unat (machineBits g))"
  have c: "unat (compose g) = unat (time g) * ?K + unat (machineIDShifted g) + unat (seq g)"
    using assms(1-3) by (rule unat_compose)
  have "unat (compose ?g') = unat (time ?g') * 2 ^ (unat (sequenceBits ?g') + unat (machineBits ?g'))
      + unat (machineIDShifted ?g') + unat (seq ?g')"
    using advance_layoutOK [OF assms(1)] advance_seq_le [OF assms(2)] assms(4)
    by (intro unat_compose) (simp_all add: advance_fields)
  then have c': "unat (compose ?g') = unat (time ?g') * ?K + unat (machineIDShifted g) + unat (seq ?g')"
    by (simp add: advance_fields)
  have sq: "unat (seq g) < 2 ^ unat (sequenceBits g)"
    using assms(1,2) by (simp add: layoutOK_def le_mask_unat)
  also have "(2::nat) ^ unat (sequenceBits g) \<le> ?K"
    by (rule power_increasing) simp_all
  finally have sK: "unat (seq g) < ?K" .
  have jump: "unat (time g) * ?K + unat (seq g) < unat (time ?g') * ?K"
    if "unat (time g) < unat (time ?g')"
  proof -
    have "unat (time g) * ?K + unat (seq g) < (unat (time g) + 1) * ?K"
      using sK by simp
    also have "\<dots> \<le> unat (time ?g') * ?K"
      using that by (intro mult_le_mono1) simp
    finally show ?thesis .
  qed
  consider (fresh) "generateTime g now > time g"
    | (bump) "\<not> generateTime g now > time g" "seq g = sequenceMask g"
    | (count) "\<not> generateTime g now > time g" "seq g \<noteq> sequenceMask g"
    by blast
  then have "unat (compose g) < unat (compose ?g')"
  proof cases
    case fresh
    then have "time ?g' = generateTime g now" "seq ?g' = 0"
      by (simp_all add: advance_def Let_def)
    with fresh jump show ?thesis by (simp add: c c' word_less_nat_alt)
  next
    case bump
    then have t: "time ?g' = time g + 1" and s: "seq ?g' = 0"
      by (simp_all add: advance_def Let_def)
    have "unat (sequenceBits g) \<noteq> 0"
      using assms(1) by (simp add: layoutOK_def unat_eq_0)
    then have "unat (timeBits g) + 1 \<le> 63" using assms(1) by (simp add: layoutOK_def)
    then have "(2::nat) ^ (unat (timeBits g) + 1) \<le> 2 ^ 63"
      by (rule power_increasing) simp_all
    with assms(3) have "unat (time g) < 2 ^ 64 - 1" by simp
    then have "unat (time ?g') = unat (time g) + 1"
      using t by (simp add: unat_inc_bounded)
    with jump s show ?thesis by (simp add: c c')
  next
    case count
    then have t: "time ?g' = time g" and s: "seq ?g' = seq g + 1"
      by (simp_all add: advance_def Let_def)
    from count(2) assms(2) have "seq g < sequenceMask g" by simp
    then have "unat (seq g) < unat (sequenceMask g)" by (simp add: word_less_nat_alt)
    moreover have "unat (sequenceMask g) < 2 ^ 64" using unsigned_less [of "sequenceMask g"] by simp
    ultimately have "unat (seq g) < 2 ^ 64 - 1" by simp
    then have "unat (seq ?g') = unat (seq g) + 1"
      using s by (simp add: unat_inc_bounded)
    with t show ?thesis by (simp add: c c')
  qed
  then show ?thesis by (simp add: word_less_nat_alt)
qed

lemma NextN_increasing:
  assumes "layoutOK g" and "seq g \<le> sequenceMask g"
    and "unat (time g) < 2 ^ (unat (timeBits g) + 1)"
    and "\<forall>r \<in> set (NextN g nows). unat (time (snd r)) < 2 ^ (unat (timeBits g) + 1)"
  shows "(\<forall>r \<in> set (NextN g nows). compose g < fst r) \<and> sorted_wrt (<) (map fst (NextN g nows))"
  using assms
proof (induction nows arbitrary: g)
  case Nil
  then show ?case by simp
next
  case (Cons now nows)
  let ?g' = "advance g now"
  have t': "unat (time ?g') < 2 ^ (unat (timeBits g) + 1)"
    using Cons.prems(4) by (simp add: Next_def Let_def)
  have step: "compose g < compose ?g'"
    using Cons.prems(1-3) t' by (rule advance_increasing)
  have "(\<forall>r \<in> set (NextN ?g' nows). compose ?g' < fst r)
      \<and> sorted_wrt (<) (map fst (NextN ?g' nows))"
  proof (rule Cons.IH)
    show "layoutOK ?g'" using Cons.prems(1) by (rule advance_layoutOK)
    show "seq ?g' \<le> sequenceMask ?g'"
      using advance_seq_le [OF Cons.prems(2)] by (simp add: advance_fields)
    show "unat (time ?g') < 2 ^ (unat (timeBits ?g') + 1)"
      using t' by (simp add: advance_fields)
    show "\<forall>r \<in> set (NextN ?g' nows). unat (time (snd r)) < 2 ^ (unat (timeBits ?g') + 1)"
      using Cons.prems(4) by (simp add: Next_def Let_def advance_fields)
  qed
  with step show ?case
    by (auto simp add: Next_def Let_def)
qed

section \<open>Reachable states\<close>

lemma NextN_reachable:
  assumes "layoutOK g" and "seq g \<le> sequenceMask g"
  shows "\<forall>r \<in> set (NextN g nows).
           layoutOK (snd r) \<and> seq (snd r) \<le> sequenceMask (snd r) \<and> fst r = compose (snd r)"
proof -
  have "\<forall>r \<in> set (NextN g nows).
          (layoutOK (snd r) \<and> seq (snd r) \<le> sequenceMask (snd r)) \<and> fst r = compose (snd r)"
  proof (rule NextN_invariant)
    show "layoutOK g \<and> seq g \<le> sequenceMask g" using assms by simp
  next
    fix h now
    assume "layoutOK h \<and> seq h \<le> sequenceMask h"
    then show "layoutOK (advance h now) \<and> seq (advance h now) \<le> sequenceMask (advance h now)"
      using advance_layoutOK [of h now] advance_seq_le [of h now] by (simp add: advance_fields)
  qed
  then show ?thesis by simp
qed

lemma NextN_frame:
  assumes "r \<in> set (NextN g nows)"
  shows "(snd r)\<lparr>time := time g, seq := seq g\<rparr> = g"
proof -
  have "\<forall>r \<in> set (NextN g nows).
          (snd r)\<lparr>time := time g, seq := seq g\<rparr> = g \<and> fst r = compose (snd r)"
    by (rule NextN_invariant) (simp_all add: advance_def Let_def)
  with assms show ?thesis by blast
qed

lemma NextN_fields:
  assumes "r \<in> set (NextN g nows)"
  shows "machineIDShifted (snd r) = machineIDShifted g"
    "epochStartNano (snd r) = epochStartNano g"
    "machineBits (snd r) = machineBits g"
    "sequenceBits (snd r) = sequenceBits g"
    "timeBits (snd r) = timeBits g"
    "machineShift (snd r) = machineShift g"
    "timeShift (snd r) = timeShift g"
    "sequenceMask (snd r) = sequenceMask g"
    "timeMask (snd r) = timeMask g"
    "nanoSecondsShift (snd r) = nanoSecondsShift g"
  using NextN_frame [OF assms, THEN arg_cong, of machineIDShifted]
    NextN_frame [OF assms, THEN arg_cong, of epochStartNano]
    NextN_frame [OF assms, THEN arg_cong, of machineBits]
    NextN_frame [OF assms, THEN arg_cong, of sequenceBits]
    NextN_frame [OF assms, THEN arg_cong, of timeBits]
    NextN_frame [OF assms, THEN arg_cong, of machineShift]
    NextN_frame [OF assms, THEN arg_cong, of timeShift]
    NextN_frame [OF assms, THEN arg_cong, of sequenceMask]
    NextN_frame [OF assms, THEN arg_cong, of timeMask]
    NextN_frame [OF assms, THEN arg_cong, of nanoSecondsShift]
  by simp_all

lemma less_2p63_iff: "w < 2 ^ 63 \<longleftrightarrow> \<not> bit w 63" for w :: uint64
proof
  assume "w < 2 ^ 63"
  then have "unat w < 2 ^ 63" by (simp add: word_less_nat_alt)
  then show "\<not> bit w 63" using unat_less_bit [of w 63 63] by blast
next
  assume n: "\<not> bit w 63"
  have "take_bit 63 w = w"
  proof (rule bit_eqI)
    fix k
    show "bit (take_bit 63 w) k = bit w k"
    proof (cases "k < 63")
      case True
      then show ?thesis by (simp add: bit_take_bit_iff)
    next
      case False
      have "\<not> bit w k"
      proof
        assume b: "bit w k"
        then have "k < 64" using bit_imp_le_length [of w k] by simp
        with False have "k = 63" by simp
        with b n show False by simp
      qed
      then show ?thesis by (simp add: bit_take_bit_iff)
    qed
  qed
  then have "unat w = take_bit 63 (unat w)"
    by (metis unsigned_take_bit_eq)
  also have "\<dots> < 2 ^ 63" by (rule take_bit_nat_less_exp)
  finally show "w < 2 ^ 63" by (simp add: word_less_nat_alt)
qed

lemma compose_bit63:
  assumes "layoutOK g" and "seq g \<le> sequenceMask g"
  shows "bit (compose g) 63 \<longleftrightarrow> bit (time g) (unat (timeBits g))"
proof -
  let ?n = "unat (sequenceBits g) + unat (machineBits g)"
  have n: "?n + unat (timeBits g) = 63" using assms(1) by (simp add: layoutOK_def)
  have "\<not> bit (machineIDShifted g) 63"
    using layoutOK_bit_machine [OF assms(1), of 63] n by auto
  moreover have "\<not> bit (seq g) 63"
    using layoutOK_bit_seq [OF assms, of 63] n by auto
  moreover have "bit (push_bit ?n (time g)) 63 \<longleftrightarrow> bit (time g) (unat (timeBits g))"
  proof -
    have "63 - ?n = unat (timeBits g)" and "?n \<le> 63" using n by simp_all
    then show ?thesis by (simp add: bit_push_bit_iff)
  qed
  ultimately show ?thesis
    by (simp add: compose_push_bit [OF assms(1)] bit_or_iff)
qed

lemma time_le_mask_bit:
  assumes "layoutOK g" and "time g \<le> timeMask g"
  shows "\<not> bit (time g) (unat (timeBits g))"
proof -
  have "unat (time g) < 2 ^ unat (timeBits g)"
    using assms by (simp add: layoutOK_def le_mask_unat)
  then show ?thesis using unat_less_bit [of "time g" "unat (timeBits g)" "unat (timeBits g)"] by blast
qed

lemma exactBits_defaultConfig: "exactBits (defaultConfig mid)"
  by (simp add: exactBits_def defaultConfig_def defaultedMachineBits_def defaultedSequenceBits_def
      defaultedTimeBits_def DefaultMachineBits_def DefaultSequenceBits_def MaxBits_def)

lemma time_fits_unat:
  assumes "layoutOK g" and "t \<le> 2 * timeMask g + 1"
  shows "unat t < 2 ^ (unat (timeBits g) + 1)"
proof -
  have "2 * timeMask g + 1 = mask (Suc (unat (timeBits g)))"
    using assms(1) by (simp add: layoutOK_def mask_Suc_rec)
  with assms(2) have "t \<le> mask (Suc (unat (timeBits g)))" by simp
  then have "unat t < 2 ^ Suc (unat (timeBits g))" by (rule le_mask_unat)
  then show ?thesis by simp
qed

lemma New_exact_machineID:
  assumes "New config = Inr g0" and "exactBits config"
  shows "machineIDShifted g0 = push_bit (unat (sequenceBits g0)) (MachineID config)"
    and "unat (MachineID config) < 2 ^ unat (machineBits g0)"
    and "machineBits g0 = defaultedMachineBits config"
    and "sequenceBits g0 = defaultedSequenceBits config"
proof -
  note g0 = New_Inr_fields(1) [OF assms(1)]
  have "unat (defaultedSequenceBits config) \<le> 63" using assms(2) by (simp add: exactBits_def)
  then have "defaultedSequenceBits config < 64" by (simp add: word_less_nat_alt)
  then show "machineIDShifted g0 = push_bit (unat (sequenceBits g0)) (MachineID config)"
    by (simp add: g0 shl_def)
  show "unat (MachineID config) < 2 ^ unat (machineBits g0)"
    using New_Inr_fields(2) [OF assms(1)] by (simp add: g0 lowMask_eq_mask le_mask_unat)
  show "machineBits g0 = defaultedMachineBits config"
    and "sequenceBits g0 = defaultedSequenceBits config"
    by (simp_all add: g0)
qed

section \<open>Masks, shifts and the derived time as natural numbers\<close>

lemma unat_lowMask:
  assumes "n < 64"
  shows "unat (lowMask n) = 2 ^ unat n - 1"
proof -
  have "unat n < 64" using assms by (simp add: word_less_nat_alt)
  then have "min 64 (unat n) = unat n" by simp
  then have "unat (lowMask n) = mask (unat n)" by (simp add: lowMask_eq_mask unat_mask64)
  also have "(mask (unat n) :: nat) = 2 ^ unat n - 1" by (rule mask_eq_exp_minus_1)
  finally show ?thesis .
qed

lemma le_lowMask_iff: "w \<le> lowMask n \<longleftrightarrow> unat w \<le> 2 ^ unat n - 1"
proof (cases "n < 64")
  case True
  then show ?thesis by (simp add: word_le_nat_alt unat_lowMask)
next
  case False
  then have "64 \<le> unat n" by (simp add: word_less_nat_alt)
  then have "(2::nat) ^ 64 \<le> 2 ^ unat n" by (rule power_increasing) simp
  moreover have "unat w < 2 ^ 64" using unsigned_less [of w] by simp
  ultimately have "unat w \<le> 2 ^ unat n - 1" by simp
  moreover have "lowMask n = - 1" using False by (simp add: lowMask_def shl_def)
  ultimately show ?thesis by simp
qed

lemma shr_eq_drop_bit: "shr x n = drop_bit (unat n) x"
proof (cases "n < 64")
  case True
  then show ?thesis by (simp add: shr_def)
next
  case False
  then have "64 \<le> unat n" by (simp add: word_less_nat_alt)
  then have "drop_bit (unat n) x = 0"
    by (auto simp add: bit_eq_iff bit_drop_bit_eq dest: bit_imp_le_length)
  with False show ?thesis by (simp add: shr_def)
qed

lemma generateTime_le_timeMask: "generateTime g now \<le> timeMask g"
  by (simp add: generateTime_def word_and_le1)

lemma unat_and_mask:
  fixes w :: uint64
  shows "unat (w AND mask n) = unat w mod 2 ^ n"
proof -
  have "unat (w AND mask n) = unat (take_bit n w)" by (simp add: take_bit_eq_mask)
  also have "\<dots> = take_bit n (unat w)" by (simp add: unsigned_take_bit_eq)
  finally show ?thesis by (simp add: take_bit_eq_mod)
qed

lemma unat_generateTime:
  assumes "timeMask g = mask (unat (timeBits g))" and "nanoSecondsShift g = 64 - timeBits g"
    and "unat (timeBits g) \<le> 64"
  shows "unat (generateTime g now) =
    (unat (now - epochStartNano g) div 2 ^ (64 - unat (timeBits g))) mod 2 ^ unat (timeBits g)"
proof -
  have "timeBits g \<le> 64" using assms(3) by (simp add: word_le_nat_alt)
  then have "unat (64 - timeBits g) = 64 - unat (timeBits g)"
    by (simp add: unat_sub)
  then have "unat (shr (now - epochStartNano g) (nanoSecondsShift g)) =
      drop_bit (64 - unat (timeBits g)) (unat (now - epochStartNano g))"
    by (simp add: assms(2) shr_eq_drop_bit unat_drop_bit_eq)
  then have "unat (shr (now - epochStartNano g) (nanoSecondsShift g)) =
      unat (now - epochStartNano g) div 2 ^ (64 - unat (timeBits g))"
    by (simp only: drop_bit_eq_div)
  then show ?thesis
    by (simp add: generateTime_def assms(1) unat_and_mask)
qed

section \<open>Claims\<close>

subsection \<open>C1: strictly increasing identifiers\<close>

text \<open>
  Claim C1, as stated, fails: with one time bit and one sequence bit, eight calls at one
  and the same clock reading exhaust the sequence four times, the stored time reaches 4,
  the shift by 62 drops it, and the eighth identifier is 0.
\<close>

theorem C1_counterexample:
  "New tightConfig = Inr tightGenerator \<and>
   map fst (NextN tightGenerator
     [1700000000000000000, 1700000000000000000, 1700000000000000000, 1700000000000000000,
      1700000000000000000, 1700000000000000000, 1700000000000000000, 1700000000000000000])
   = [1, 4611686018427387904, 4611686018427387905, 9223372036854775808,
      9223372036854775809, 13835058055282163712, 13835058055282163713, 0] \<and>
   \<not> sorted_wrt (<) (map fst (NextN tightGenerator
     [1700000000000000000, 1700000000000000000, 1700000000000000000, 1700000000000000000,
      1700000000000000000, 1700000000000000000, 1700000000000000000, 1700000000000000000]))"
  by code_simp

text \<open>
  Claim C1, amended: for a generator constructed from a configuration whose widths add up
  to 63 as natural numbers, and any clock readings, the identifiers returned by successive
  calls of \<open>Next\<close> are strictly increasing as long as the stored time after each call is
  at most \<open>2 * timeMask + 1\<close>, that is below \<open>2 ^ (timeBits + 1)\<close>, so that the shift into
  the time field loses no bit.
\<close>

theorem Next_increasing_while_time_fits:
  assumes "New config = Inr g0" and "exactBits config"
    and "\<forall>r \<in> set (NextN g0 nows). time (snd r) \<le> 2 * timeMask g0 + 1"
  shows "sorted_wrt (<) (map fst (NextN g0 nows))"
proof -
  have ok: "layoutOK g0" using assms(1,2) by (rule New_layoutOK)
  have "seq g0 \<le> sequenceMask g0" and "unat (time g0) < 2 ^ (unat (timeBits g0) + 1)"
    by (simp_all add: New_Inr_fields(1) [OF assms(1)])
  moreover have "\<forall>r \<in> set (NextN g0 nows). unat (time (snd r)) < 2 ^ (unat (timeBits g0) + 1)"
    using assms(3) time_fits_unat [OF ok] by blast
  ultimately show ?thesis
    using ok NextN_increasing by blast
qed

theorem Next_increasing_while_time_fits_witness:
  "New (defaultConfig 10) = Inr (defaultGenerator 10) \<and> exactBits (defaultConfig 10) \<and>
   list_all (\<lambda>r. time (snd r) \<le> 2 * timeMask (defaultGenerator 10) + 1)
     (NextN (defaultGenerator 10)
        [1700000000000000000, 1700000000000000000, 1700000000012345678, 1699999999000000000]) \<and>
   sorted_wrt (<) (map fst (NextN (defaultGenerator 10)
        [1700000000000000000, 1700000000000000000, 1700000000012345678, 1699999999000000000]))"
proof -
  have h1: "New (defaultConfig 10) = Inr (defaultGenerator 10)" by code_simp
  have h2: "exactBits (defaultConfig 10)" by (rule exactBits_defaultConfig)
  have h3: "\<forall>r \<in> set (NextN (defaultGenerator 10)
        [1700000000000000000, 1700000000000000000, 1700000000012345678, 1699999999000000000]).
      time (snd r) \<le> 2 * timeMask (defaultGenerator 10) + 1" by code_simp
  from Next_increasing_while_time_fits [OF h1 h2 h3] h1 h2 h3 show ?thesis
    unfolding list_all_iff by blast
qed

subsection \<open>C2: the check of the sum of the widths\<close>

text \<open>
  Claim C2 at \<open>wrappedConfig\<close>: \<open>TimeBits\<close> is 0 and the machine and sequence widths add up
  to 80, so the default \<open>63 - 40 - 40\<close> wraps to \<open>2 ^ 64 - 17\<close>; the three widths add up to
  \<open>2 ^ 64 + 63\<close> as natural numbers and to 63 as \<open>uint64\<close>, and \<open>New\<close> returns a generator
  where the claim has it return the error of the sum.
\<close>

theorem New_accepts_wrapped_sum:
  "TimeBits wrappedConfig = 0 \<and>
   MachineBits wrappedConfig = 40 \<and> SequenceBits wrappedConfig = 40 \<and>
   defaultedTimeBits wrappedConfig = 18446744073709551599 \<and>
   \<not> exactBits wrappedConfig \<and>
   New wrappedConfig = Inr wrappedGenerator"
proof -
  have "\<not> exactBits wrappedConfig"
    by (simp add: exactBits_def wrappedConfig_def defaultedMachineBits_def
        defaultedSequenceBits_def defaultedTimeBits_def DefaultMachineBits_def
        DefaultSequenceBits_def MaxBits_def)
  moreover have "TimeBits wrappedConfig = 0 \<and>
      MachineBits wrappedConfig = 40 \<and> SequenceBits wrappedConfig = 40 \<and>
      defaultedTimeBits wrappedConfig = 18446744073709551599 \<and>
      New wrappedConfig = Inr wrappedGenerator"
    by code_simp
  ultimately show ?thesis by blast
qed

subsection \<open>C3: bit 63 of an identifier\<close>

text \<open>
  Claim C3, as stated, fails: with one time bit and one sequence bit, the fourth call at
  one clock reading forces the stored time to 2, beyond \<open>timeMask = 1\<close>, and returns
  \<open>2 ^ 63\<close>.
\<close>

theorem C3_counterexample:
  "New tightConfig = Inr tightGenerator \<and>
   map fst (NextN tightGenerator
     [1700000000000000000, 1700000000000000000, 1700000000000000000, 1700000000000000000])
   = [1, 4611686018427387904, 4611686018427387905, 9223372036854775808] \<and>
   bit (fst (last (NextN tightGenerator
     [1700000000000000000, 1700000000000000000, 1700000000000000000, 1700000000000000000]))) 63 \<and>
   \<not> fst (last (NextN tightGenerator
     [1700000000000000000, 1700000000000000000, 1700000000000000000, 1700000000000000000])) < 2 ^ 63"
  by code_simp

text \<open>
  Claim C3, amended: for a generator constructed from a configuration whose widths add up
  to 63 as natural numbers, bit 63 of every identifier returned by \<open>Next\<close> is bit
  \<open>timeBits\<close> of the stored time after the call; so every identifier returned while the
  stored time is at most \<open>timeMask\<close> is below \<open>2 ^ 63\<close>.
\<close>

theorem Next_top_bit_follows_time:
  assumes "New config = Inr g0" and "exactBits config"
  shows "\<forall>r \<in> set (NextN g0 nows).
           (bit (fst r) 63 \<longleftrightarrow> bit (time (snd r)) (unat (timeBits g0))) \<and>
           (time (snd r) \<le> timeMask g0 \<longrightarrow> fst r < 2 ^ 63)"
proof
  fix r
  assume r: "r \<in> set (NextN g0 nows)"
  have ok: "layoutOK g0" using assms by (rule New_layoutOK)
  have "seq g0 \<le> sequenceMask g0" by (simp add: New_Inr_fields(1) [OF assms(1)])
  with ok r have inv: "layoutOK (snd r)" "seq (snd r) \<le> sequenceMask (snd r)"
      "fst r = compose (snd r)"
    using NextN_reachable by blast+
  have same: "timeBits (snd r) = timeBits g0 \<and> timeMask (snd r) = timeMask g0"
    using NextN_fields [OF r] by simp
  show "(bit (fst r) 63 \<longleftrightarrow> bit (time (snd r)) (unat (timeBits g0))) \<and>
        (time (snd r) \<le> timeMask g0 \<longrightarrow> fst r < 2 ^ 63)"
    using compose_bit63 [OF inv(1,2)] time_le_mask_bit [OF inv(1)] inv(3) same
      less_2p63_iff [of "fst r"]
    by simp
qed

theorem Next_top_bit_follows_time_witness:
  "New (defaultConfig 1) = Inr (defaultGenerator 1) \<and> exactBits (defaultConfig 1) \<and>
   list_all (\<lambda>r. time (snd r) \<le> timeMask (defaultGenerator 1) \<and> fst r < 2 ^ 63)
     (NextN (defaultGenerator 1) [1700000000000000000, 1700000000000000000, 1700000000012345678])"
proof -
  have h1: "New (defaultConfig 1) = Inr (defaultGenerator 1)" by code_simp
  have h2: "exactBits (defaultConfig 1)" by (rule exactBits_defaultConfig)
  have h3: "\<forall>r \<in> set (NextN (defaultGenerator 1)
        [1700000000000000000, 1700000000000000000, 1700000000012345678]).
      time (snd r) \<le> timeMask (defaultGenerator 1)" by code_simp
  from Next_top_bit_follows_time [OF h1 h2,
      of "[1700000000000000000, 1700000000000000000, 1700000000012345678]"] h3
  have "\<forall>r \<in> set (NextN (defaultGenerator 1)
        [1700000000000000000, 1700000000000000000, 1700000000012345678]).
      time (snd r) \<le> timeMask (defaultGenerator 1) \<and> fst r < 2 ^ 63" by blast
  with h1 h2 show ?thesis unfolding list_all_iff by blast
qed

subsection \<open>C4: the range of the machine ID\<close>

text \<open>
  The check itself: for every configuration that passes the check of the sum, \<open>New\<close>
  succeeds when the machine ID is at most \<open>2 ^ machineBits - 1\<close> (as natural numbers, with
  the width after the default) and otherwise returns the machine-ID error, which carries
  the number \<open>2 ^ machineBits - 1\<close>. With the default width 10, 1023 succeeds and 1024
  fails with the number 1023.
\<close>

theorem New_machineID_range:
  assumes "New config \<noteq> Inl InvalidBitsSum"
  shows "(unat (MachineID config) \<le> 2 ^ unat (defaultedMachineBits config) - 1
            \<longrightarrow> (\<exists>g. New config = Inr g)) \<and>
         (2 ^ unat (defaultedMachineBits config) - 1 < unat (MachineID config)
            \<longrightarrow> (\<exists>m. New config = Inl (InvalidMachineID m) \<and>
                     unat m = 2 ^ unat (defaultedMachineBits config) - 1))"
proof -
  let ?mb = "defaultedMachineBits config"
  have sum: "defaultedSequenceBits config + ?mb + defaultedTimeBits config = MaxBits"
    using assms by (auto simp add: New_def Let_def split: if_splits)
  have ok: "\<exists>g. New config = Inr g" if "unat (MachineID config) \<le> 2 ^ unat ?mb - 1"
  proof -
    from that have "MachineID config \<le> lowMask ?mb" by (simp add: le_lowMask_iff)
    then have "\<not> lowMask ?mb < MachineID config" by simp
    with sum show ?thesis by (simp add: New_def Let_def)
  qed
  have bad: "\<exists>m. New config = Inl (InvalidMachineID m) \<and> unat m = 2 ^ unat ?mb - 1"
    if "2 ^ unat ?mb - 1 < unat (MachineID config)"
  proof -
    from that have gt: "lowMask ?mb < MachineID config"
      using le_lowMask_iff [of "MachineID config" ?mb] by simp
    have "?mb < 64"
    proof (rule ccontr)
      assume "\<not> ?mb < 64"
      then have "lowMask ?mb = - 1" by (simp add: lowMask_def shl_def)
      with gt show False by simp
    qed
    then have "unat (lowMask ?mb) = 2 ^ unat ?mb - 1" by (rule unat_lowMask)
    moreover have "New config = Inl (InvalidMachineID (lowMask ?mb))"
      using sum gt by (simp add: New_def Let_def)
    ultimately show ?thesis by blast
  qed
  from ok bad show ?thesis by blast
qed

theorem New_machineID_range_witness:
  "New (defaultConfig 1023) \<noteq> Inl InvalidBitsSum \<and>
   New (defaultConfig 1024) \<noteq> Inl InvalidBitsSum \<and>
   defaultedMachineBits (defaultConfig 1023) = 10 \<and>
   defaultedMachineBits (defaultConfig 1024) = 10 \<and>
   (\<exists>g. New (defaultConfig 1023) = Inr g) \<and>
   (\<exists>m. New (defaultConfig 1024) = Inl (InvalidMachineID m) \<and> unat m = 1023)"
proof -
  have a: "New (defaultConfig 1023) \<noteq> Inl InvalidBitsSum" by code_simp
  have b: "New (defaultConfig 1024) \<noteq> Inl InvalidBitsSum" by code_simp
  have mb: "defaultedMachineBits (defaultConfig mid) = 10" for mid
    by (simp add: defaultedMachineBits_def defaultConfig_def DefaultMachineBits_def)
  have mid: "MachineID (defaultConfig mid) = mid" for mid
    by (simp add: defaultConfig_def)
  from New_machineID_range [OF a] New_machineID_range [OF b] a b show ?thesis
    by (simp add: mb mid)
qed

text \<open>
  The message of the machine-ID error against the check: whenever \<open>New\<close> returns
  \<open>InvalidMachineID m\<close>, the same configuration with the machine ID \<open>m\<close> is accepted, and
  the range the message states, \<open>0 \<le> id < m\<close>, leaves \<open>m\<close> out.
\<close>

lemma message_excludes_accepted_bound:
  assumes "New config = Inl (InvalidMachineID m)"
  shows "\<not> statedRange (InvalidMachineID m) m \<and> (\<exists>g. New (config\<lparr>MachineID := m\<rparr>) = Inr g)"
proof -
  from assms have m: "m = lowMask (defaultedMachineBits config)"
    and sum: "defaultedSequenceBits config + defaultedMachineBits config
        + defaultedTimeBits config = MaxBits"
    by (auto simp add: New_def Let_def split: if_splits)
  have same: "defaultedMachineBits (config\<lparr>MachineID := x\<rparr>) = defaultedMachineBits config"
    "defaultedSequenceBits (config\<lparr>MachineID := x\<rparr>) = defaultedSequenceBits config"
    "defaultedTimeBits (config\<lparr>MachineID := x\<rparr>) = defaultedTimeBits config" for x
    by (simp_all add: defaultedMachineBits_def defaultedSequenceBits_def defaultedTimeBits_def)
  have "\<exists>g. New (config\<lparr>MachineID := m\<rparr>) = Inr g"
    using sum by (simp add: New_def Let_def same m)
  then show ?thesis by (simp add: statedRange_def)
qed

text \<open>
  Claim C4 at the default width 10: \<open>New\<close> accepts the machine ID 1023 and rejects 1024, as
  the claim says, but the error for 1024 is formatted from \<open>must be 0 \<le> id < %d\<close> with
  1023: the range it states ends at 1022 and leaves out 1023, where the claim has the error
  report the inclusive range from 0 to 1023.
\<close>

theorem machineID_message_leaves_out_max:
  "New (defaultConfig 1023) = Inr (defaultGenerator 1023) \<and>
   New (defaultConfig 1024) = Inl (InvalidMachineID 1023) \<and>
   statedRange (InvalidMachineID 1023) 1022 \<and>
   \<not> statedRange (InvalidMachineID 1023) 1023"
  by code_simp

subsection \<open>C5: the three-way decision of Next\<close>

text \<open>
  Claim C5: a call of \<open>Next\<close> adopts the derived time and resets the sequence when the
  derived time is greater than the stored one; otherwise, when the sequence equals
  \<open>sequenceMask\<close>, it adds 1 to the stored time and resets the sequence; otherwise it adds 1
  to the sequence and keeps the time (additions of \<open>uint64\<close>). It returns
  \<open>(time << timeShift) | machineIDShifted | seq\<close> of the updated state and changes no
  other field.
\<close>

theorem Next_three_way:
  assumes "Next g now = (ident, g')"
  shows "(time g < generateTime g now \<longrightarrow> time g' = generateTime g now \<and> seq g' = 0) \<and>
         (\<not> time g < generateTime g now \<and> seq g = sequenceMask g
            \<longrightarrow> time g' = time g + 1 \<and> seq g' = 0) \<and>
         (\<not> time g < generateTime g now \<and> seq g \<noteq> sequenceMask g
            \<longrightarrow> seq g' = seq g + 1 \<and> time g' = time g) \<and>
         ident = (shl (time g') (timeShift g) OR machineIDShifted g OR seq g') \<and>
         g'\<lparr>time := time g, seq := seq g\<rparr> = g"
proof -
  from assms have g': "g' = advance g now" and i: "ident = compose g'"
    by (auto simp add: Next_def Let_def)
  show ?thesis
    unfolding i compose_def unfolding g'
    by (simp add: advance_def Let_def)
qed

theorem Next_three_way_witness:
  "Next (defaultGenerator 1) 1700000000000000000
     = (849999999998627840, (defaultGenerator 1)\<lparr>time := 202655792236\<rparr>) \<and>
   Next ((defaultGenerator 1)\<lparr>time := 202655792236, seq := 4095\<rparr>) 1700000000000000000
     = (850000000002822144, (defaultGenerator 1)\<lparr>time := 202655792237\<rparr>) \<and>
   Next ((defaultGenerator 1)\<lparr>time := 202655792236, seq := 7\<rparr>) 1700000000000000000
     = (849999999998627848, (defaultGenerator 1)\<lparr>time := 202655792236, seq := 8\<rparr>)"
proof -
  have a: "Next (defaultGenerator 1) 1700000000000000000
     = (849999999998627840, (defaultGenerator 1)\<lparr>time := 202655792236\<rparr>)" by code_simp
  have b: "Next ((defaultGenerator 1)\<lparr>time := 202655792236, seq := 4095\<rparr>) 1700000000000000000
     = (850000000002822144, (defaultGenerator 1)\<lparr>time := 202655792237\<rparr>)" by code_simp
  have c: "Next ((defaultGenerator 1)\<lparr>time := 202655792236, seq := 7\<rparr>) 1700000000000000000
     = (849999999998627848, (defaultGenerator 1)\<lparr>time := 202655792236, seq := 8\<rparr>)" by code_simp
  from Next_three_way [OF a] Next_three_way [OF b] Next_three_way [OF c] a b c
  show ?thesis by blast
qed

subsection \<open>C6: the derived time\<close>

text \<open>
  Claim C6: for a constructed generator, in its initial state and after any calls of
  \<open>Next\<close>, the derived time for the clock reading \<open>now\<close> is
  \<open>((now - epoch) >> (64 - timeBits)) & ((1 << timeBits) - 1)\<close> in \<open>uint64\<close> arithmetic,
  where \<open>epoch\<close> is \<open>EpochStartUnixSeconds * 10 ^ 9\<close> modulo \<open>2 ^ 64\<close>, and it is at most
  \<open>timeMask\<close>. When the widths add up to 63 as natural numbers, its value is
  \<open>((now - epoch) div 2 ^ (64 - timeBits)) mod 2 ^ timeBits\<close>.
\<close>

theorem generateTime_formula:
  assumes "New config = Inr g0"
  shows "\<forall>g \<in> insert g0 (snd ` set (NextN g0 nows)).
           generateTime g now =
             shr (now - EpochStartUnixSeconds config * 1000000000) (64 - defaultedTimeBits config)
               AND (shl 1 (defaultedTimeBits config) - 1) \<and>
           unat (EpochStartUnixSeconds config * 1000000000 :: uint64) =
             (unat (EpochStartUnixSeconds config) * 1000000000) mod 2 ^ 64 \<and>
           generateTime g now \<le> timeMask g \<and>
           (exactBits config \<longrightarrow>
             unat (generateTime g now) =
               (unat (now - EpochStartUnixSeconds config * 1000000000)
                  div 2 ^ (64 - unat (defaultedTimeBits config)))
                 mod 2 ^ unat (defaultedTimeBits config))"
proof
  fix g
  assume "g \<in> insert g0 (snd ` set (NextN g0 nows))"
  then have f: "epochStartNano g = epochStartNano g0 \<and> nanoSecondsShift g = nanoSecondsShift g0
      \<and> timeMask g = timeMask g0 \<and> timeBits g = timeBits g0"
    using NextN_fields by auto
  note g0 = New_Inr_fields(1) [OF assms]
  have e: "epochStartNano g = EpochStartUnixSeconds config * 1000000000"
    and n: "nanoSecondsShift g = 64 - defaultedTimeBits config"
    and m: "timeMask g = lowMask (defaultedTimeBits config)"
    and t: "timeBits g = defaultedTimeBits config"
    using f by (simp_all add: g0)
  have 1: "generateTime g now =
      shr (now - EpochStartUnixSeconds config * 1000000000) (64 - defaultedTimeBits config)
        AND (shl 1 (defaultedTimeBits config) - 1)"
    by (simp add: generateTime_def e n m lowMask_eq_shl)
  have 2: "unat (EpochStartUnixSeconds config * 1000000000 :: uint64) =
      (unat (EpochStartUnixSeconds config) * 1000000000) mod 2 ^ 64"
    by (simp add: unat_word_ariths)
  have 3: "unat (generateTime g now) =
      (unat (now - EpochStartUnixSeconds config * 1000000000)
         div 2 ^ (64 - unat (defaultedTimeBits config)))
        mod 2 ^ unat (defaultedTimeBits config)" if "exactBits config"
  proof -
    have "unat (timeBits g) \<le> 64" using that t by (simp add: exactBits_def)
    moreover have "timeMask g = mask (unat (timeBits g))" by (simp add: m t lowMask_eq_mask)
    moreover have "nanoSecondsShift g = 64 - timeBits g" by (simp add: n t)
    ultimately show ?thesis using unat_generateTime [of g now] by (simp add: e t)
  qed
  from 1 2 3 generateTime_le_timeMask [of g now]
  show "generateTime g now =
             shr (now - EpochStartUnixSeconds config * 1000000000) (64 - defaultedTimeBits config)
               AND (shl 1 (defaultedTimeBits config) - 1) \<and>
           unat (EpochStartUnixSeconds config * 1000000000 :: uint64) =
             (unat (EpochStartUnixSeconds config) * 1000000000) mod 2 ^ 64 \<and>
           generateTime g now \<le> timeMask g \<and>
           (exactBits config \<longrightarrow>
             unat (generateTime g now) =
               (unat (now - EpochStartUnixSeconds config * 1000000000)
                  div 2 ^ (64 - unat (defaultedTimeBits config)))
                 mod 2 ^ unat (defaultedTimeBits config))"
    by blast
qed

theorem generateTime_formula_witness:
  "New ((defaultConfig 1)\<lparr>EpochStartUnixSeconds := 1600000000\<rparr>)
     = Inr ((defaultGenerator 1)\<lparr>epochStartNano := 1600000000000000000\<rparr>) \<and>
   exactBits ((defaultConfig 1)\<lparr>EpochStartUnixSeconds := 1600000000\<rparr>) \<and>
   generateTime ((defaultGenerator 1)\<lparr>epochStartNano := 1600000000000000000\<rparr>)
     1700000000000000000 = 11920928955 \<and>
   unat (generateTime ((defaultGenerator 1)\<lparr>epochStartNano := 1600000000000000000\<rparr>)
     1700000000000000000) = (100000000000000000 div 2 ^ (64 - 41)) mod 2 ^ 41 \<and>
   generateTime ((defaultGenerator 1)\<lparr>epochStartNano := 1600000000000000000\<rparr>)
     1700000000000000000
     \<le> timeMask ((defaultGenerator 1)\<lparr>epochStartNano := 1600000000000000000\<rparr>)"
proof -
  let ?c = "(defaultConfig 1)\<lparr>EpochStartUnixSeconds := 1600000000\<rparr>"
  let ?g = "(defaultGenerator 1)\<lparr>epochStartNano := 1600000000000000000\<rparr>"
  have h: "New ?c = Inr ?g" by code_simp
  have x: "exactBits ?c"
    by (simp add: exactBits_def defaultConfig_def defaultedMachineBits_def
        defaultedSequenceBits_def defaultedTimeBits_def DefaultMachineBits_def
        DefaultSequenceBits_def MaxBits_def)
  have v: "shr (1700000000000000000 - EpochStartUnixSeconds ?c * 1000000000)
      (64 - defaultedTimeBits ?c) AND (shl 1 (defaultedTimeBits ?c) - 1) = 11920928955"
    by code_simp
  have tb: "unat (defaultedTimeBits ?c) = 41"
    by (simp add: defaultConfig_def defaultedMachineBits_def
        defaultedSequenceBits_def defaultedTimeBits_def DefaultMachineBits_def
        DefaultSequenceBits_def MaxBits_def)
  have d: "unat (1700000000000000000 - EpochStartUnixSeconds ?c * 1000000000 :: uint64)
      = 100000000000000000"
    by (simp add: defaultConfig_def)
  have "?g \<in> insert ?g (snd ` set (NextN ?g []))" by (rule insertI1)
  with generateTime_formula [OF h, of "[]" 1700000000000000000] x
  have f1: "generateTime ?g 1700000000000000000 =
      shr (1700000000000000000 - EpochStartUnixSeconds ?c * 1000000000)
        (64 - defaultedTimeBits ?c) AND (shl 1 (defaultedTimeBits ?c) - 1)"
    and f2: "generateTime ?g 1700000000000000000 \<le> timeMask ?g"
    and f3: "unat (generateTime ?g 1700000000000000000) =
        (unat (1700000000000000000 - EpochStartUnixSeconds ?c * 1000000000)
           div 2 ^ (64 - unat (defaultedTimeBits ?c))) mod 2 ^ unat (defaultedTimeBits ?c)"
    by blast+
  have c3: "generateTime ?g 1700000000000000000 = 11920928955"
    using f1 v by (rule trans)
  have c4: "unat (generateTime ?g 1700000000000000000) =
      (100000000000000000 div 2 ^ (64 - 41)) mod 2 ^ 41"
    using f3 by (simp only: tb d)
  from h x c3 c4 f2 show ?thesis by blast
qed

subsection \<open>C7: the machine field of an identifier\<close>

text \<open>
  Where the widths add up to 63 as natural numbers, the machine field of every returned
  identifier is the configured machine ID.
\<close>

lemma machine_field_exact:
  assumes "New config = Inr g0" and "exactBits config" and "r \<in> set (NextN g0 nows)"
  shows "shr (fst r) (sequenceBits g0) AND (shl 1 (machineBits g0) - 1) = MachineID config"
proof -
  let ?S = "unat (sequenceBits g0)" and ?M = "unat (machineBits g0)"
  let ?g = "snd r"
  have ok: "layoutOK g0" using assms(1,2) by (rule New_layoutOK)
  have "seq g0 \<le> sequenceMask g0" by (simp add: New_Inr_fields(1) [OF assms(1)])
  with ok assms(3) have inv: "layoutOK ?g" "seq ?g \<le> sequenceMask ?g" "fst r = compose ?g"
    using NextN_reachable by blast+
  note f = NextN_fields [OF assms(3)]
  note m = New_exact_machineID(1,2) [OF assms(1,2)]
  have sum: "?S + ?M \<le> 63" using ok by (simp add: layoutOK_def)
  have c: "fst r = push_bit (?S + ?M) (time ?g) OR push_bit ?S (MachineID config) OR seq ?g"
    using compose_push_bit [OF inv(1)] by (simp add: inv(3) f m(1))
  have sq: "k < ?S" if "bit (seq ?g) k" for k
    using layoutOK_bit_seq [OF inv(1,2) that] by (simp add: f)
  have "drop_bit ?S (fst r) AND mask ?M = MachineID config"
  proof (rule bit_eqI)
    fix k
    have mk: "k < ?M" if "bit (MachineID config) k"
      using unat_less_bit [OF m(2) that] .
    have "\<not> bit (seq ?g) (?S + k)" using sq [of "?S + k"] by auto
    then show "bit (drop_bit ?S (fst r) AND mask ?M) k = bit (MachineID config) k"
      using mk sum
      by (auto simp add: c bit_and_iff bit_mask_iff bit_drop_bit_eq bit_or_iff bit_push_bit_iff)
  qed
  then show ?thesis
    by (simp add: shr_eq_drop_bit lowMask_eq_shl [symmetric] lowMask_eq_mask)
qed

text \<open>
  Claim C7 at \<open>wrappedConfig\<close>, which \<open>New\<close> accepts: the machine ID \<open>2 ^ 24\<close> is within
  40 bits, the shift by 40 drops it, and the machine field of the first identifier is 0.
\<close>

theorem machine_field_lost_on_wrapped_sum:
  "New wrappedConfig = Inr wrappedGenerator \<and> MachineID wrappedConfig = 16777216 \<and>
   fst (Next wrappedGenerator 1700000000000000000) = 1 \<and>
   shr (fst (Next wrappedGenerator 1700000000000000000)) (sequenceBits wrappedGenerator)
     AND (shl 1 (machineBits wrappedGenerator) - 1) = 0"
  by code_simp

subsection \<open>C8: the derived constants\<close>

text \<open>
  Claim C8: for every accepted configuration, \<open>machineShift\<close> is the sequence width,
  \<open>timeShift\<close> the sum of the sequence and machine widths, and the two masks are
  \<open>(1 << bits) - 1\<close> in \<open>uint64\<close> arithmetic; the mask expression of the source,
  \<open>uint64(^(int64(-1) << bits))\<close>, equals \<open>(1 << bits) - 1\<close> for every width.
\<close>

theorem New_derived_constants:
  assumes "New config = Inr g"
  shows "machineShift g = defaultedSequenceBits config \<and>
         timeShift g = defaultedSequenceBits config + defaultedMachineBits config \<and>
         sequenceMask g = shl 1 (defaultedSequenceBits config) - 1 \<and>
         timeMask g = shl 1 (defaultedTimeBits config) - 1 \<and>
         sequenceMask g = lowMask (defaultedSequenceBits config) \<and>
         timeMask g = lowMask (defaultedTimeBits config) \<and>
         lowMask bits = shl 1 bits - 1"
  by (subst (1 2 3 4 5 6) New_Inr_fields(1) [OF assms]) (simp add: lowMask_eq_shl)

theorem New_derived_constants_witness:
  "New (defaultConfig 1) = Inr (defaultGenerator 1) \<and>
   machineShift (defaultGenerator 1) = 12 \<and> timeShift (defaultGenerator 1) = 22 \<and>
   sequenceMask (defaultGenerator 1) = 4095 \<and> timeMask (defaultGenerator 1) = 2199023255551"
proof -
  have h: "New (defaultConfig 1) = Inr (defaultGenerator 1)" by code_simp
  have v1: "defaultedSequenceBits (defaultConfig 1) = 12" by code_simp
  have v2: "defaultedMachineBits (defaultConfig 1) = 10" by code_simp
  have v3: "defaultedTimeBits (defaultConfig 1) = 41" by code_simp
  have e1: "shl 1 12 - 1 = 4095" by code_simp
  have e2: "shl 1 41 - 1 = 2199023255551" by code_simp
  have e3: "(12 :: uint64) + 10 = 22" by simp
  from New_derived_constants [OF h, of 0]
  have "machineShift (defaultGenerator 1) = 12 \<and> timeShift (defaultGenerator 1) = 22 \<and>
    sequenceMask (defaultGenerator 1) = 4095 \<and> timeMask (defaultGenerator 1) = 2199023255551"
    unfolding v1 v2 v3 e1 e2 e3 by blast
  with h show ?thesis by blast
qed

subsection \<open>C9: the accessor\<close>

text \<open>
  Where the widths add up to 63 as natural numbers, \<open>MachineID()\<close> returns the configured
  machine ID, in the initial state and after any calls of \<open>Next\<close>.
\<close>

lemma MachineID_of_exact:
  assumes "New config = Inr g0" and "exactBits config"
    and "g \<in> insert g0 (snd ` set (NextN g0 nows))"
  shows "MachineID_of g = MachineID config"
proof -
  let ?S = "unat (sequenceBits g0)"
  have same: "machineIDShifted g = machineIDShifted g0 \<and> machineShift g = machineShift g0"
    using assms(3) NextN_fields by auto
  have ok: "layoutOK g0" using assms(1,2) by (rule New_layoutOK)
  have sum: "?S + unat (machineBits g0) \<le> 63" using ok by (simp add: layoutOK_def)
  note m = New_exact_machineID(1,2) [OF assms(1,2)]
  have "drop_bit ?S (push_bit ?S (MachineID config)) = MachineID config"
  proof (rule bit_eqI)
    fix k
    have "?S + k < 64" if "bit (MachineID config) k"
      using unat_less_bit [OF m(2) that] sum by simp
    then show "bit (drop_bit ?S (push_bit ?S (MachineID config))) k = bit (MachineID config) k"
      by (auto simp add: bit_drop_bit_eq bit_push_bit_iff)
  qed
  then show ?thesis
    using same ok by (simp add: MachineID_of_def shr_eq_drop_bit m(1) layoutOK_def)
qed

text \<open>
  Claim C9 at \<open>wrappedConfig\<close>, which \<open>New\<close> accepts: the shift by 40 drops the machine ID
  \<open>2 ^ 24\<close>, and \<open>MachineID()\<close> returns 0.
\<close>

theorem MachineID_lost_on_wrapped_sum:
  "New wrappedConfig = Inr wrappedGenerator \<and> MachineID wrappedConfig = 16777216 \<and>
   MachineID_of wrappedGenerator = 0"
  by code_simp

subsection \<open>C10: the sequence stays within its mask\<close>

text \<open>
  Claim C10: a constructed generator starts with \<open>seq = 0\<close>; after any calls of \<open>Next\<close>
  the sequence is at most \<open>sequenceMask\<close>, which no call changes, and shifted right by
  \<open>machineShift\<close> it is 0, so it does not reach the machine field; and one call of \<open>Next\<close>
  on any state keeps \<open>seq \<le> sequenceMask\<close>.
\<close>

theorem seq_within_sequenceMask:
  assumes "New config = Inr g0"
  shows "seq g0 = 0 \<and> seq g0 \<le> sequenceMask g0 \<and>
         (\<forall>r \<in> set (NextN g0 nows).
            seq (snd r) \<le> sequenceMask g0 \<and> sequenceMask (snd r) = sequenceMask g0 \<and>
            shr (seq (snd r)) (machineShift g0) = 0) \<and>
         (seq g \<le> sequenceMask g \<longrightarrow>
            seq (snd (Next g now)) \<le> sequenceMask (snd (Next g now)))"
proof -
  note g0 = New_Inr_fields(1) [OF assms]
  have z: "seq g0 = 0" by (simp add: g0)
  have run: "\<forall>r \<in> set (NextN g0 nows).
      (seq (snd r) \<le> sequenceMask (snd r) \<and> sequenceMask (snd r) = sequenceMask g0
         \<and> machineShift (snd r) = machineShift g0)
      \<and> fst r = compose (snd r)"
  proof (rule NextN_invariant)
    show "seq g0 \<le> sequenceMask g0 \<and> sequenceMask g0 = sequenceMask g0
        \<and> machineShift g0 = machineShift g0" by (simp add: z)
  next
    fix h :: Generator and n
    assume "seq h \<le> sequenceMask h \<and> sequenceMask h = sequenceMask g0
        \<and> machineShift h = machineShift g0"
    then show "seq (advance h n) \<le> sequenceMask (advance h n)
        \<and> sequenceMask (advance h n) = sequenceMask g0
        \<and> machineShift (advance h n) = machineShift g0"
      using advance_seq_le [of h n] by (auto simp add: advance_fields)
  qed
  have field: "shr w (machineShift g0) = 0" if "w \<le> sequenceMask g0" for w
  proof -
    from that have "unat w < 2 ^ unat (defaultedSequenceBits config)"
      by (simp add: g0 lowMask_eq_mask le_mask_unat)
    then have "drop_bit (unat (defaultedSequenceBits config)) w = 0"
      by (auto simp add: bit_eq_iff bit_drop_bit_eq dest: unat_less_bit)
    then show ?thesis by (simp add: g0 shr_eq_drop_bit)
  qed
  have step: "seq (snd (Next g now)) \<le> sequenceMask (snd (Next g now))"
    if "seq g \<le> sequenceMask g"
    using advance_seq_le [OF that, of now] by (simp add: Next_def Let_def advance_fields)
  from z run field step show ?thesis by auto
qed

theorem seq_within_sequenceMask_witness:
  "New (defaultConfig 1) = Inr (defaultGenerator 1) \<and>
   list_all (\<lambda>r. seq (snd r) \<le> sequenceMask (defaultGenerator 1))
     (NextN (defaultGenerator 1) [1700000000000000000, 1700000000000000000, 1699999999000000000]) \<and>
   seq ((defaultGenerator 1)\<lparr>time := 202655792236, seq := 4095\<rparr>)
     \<le> sequenceMask ((defaultGenerator 1)\<lparr>time := 202655792236, seq := 4095\<rparr>) \<and>
   seq (snd (Next ((defaultGenerator 1)\<lparr>time := 202655792236, seq := 4095\<rparr>) 1700000000000000000))
     \<le> sequenceMask (snd (Next ((defaultGenerator 1)\<lparr>time := 202655792236, seq := 4095\<rparr>)
           1700000000000000000))"
proof -
  have h: "New (defaultConfig 1) = Inr (defaultGenerator 1)" by code_simp
  have s: "seq ((defaultGenerator 1)\<lparr>time := 202655792236, seq := 4095\<rparr>)
     \<le> sequenceMask ((defaultGenerator 1)\<lparr>time := 202655792236, seq := 4095\<rparr>)"
    by code_simp
  from seq_within_sequenceMask [OF h,
      of "[1700000000000000000, 1700000000000000000, 1699999999000000000]"
         "(defaultGenerator 1)\<lparr>time := 202655792236, seq := 4095\<rparr>" 1700000000000000000]
    h s
  show ?thesis unfolding list_all_iff by blast
qed

end
